theory Spec2Isabelle
  imports Main "HOL-Library.Sublist"
begin

section \<open>Python values, exceptions and built-in operations\<close>

text \<open>
  The parser works on decoded JSON documents and on the values of the configuration
  module, all of them dynamically typed. A value of that kind is a \<open>pyval\<close>: \<open>PNone\<close> is
  Python's \<open>None\<close> (also the result of a fetch that gave up), a \<open>dict\<close> with string keys
  is an association list in insertion order whose keys are distinct. JSON numbers are
  integers here: the fractional ones (prices) are only copied, never inspected.
\<close>

datatype pyval =
    PNone
  | PBool bool
  | PInt int
  | PStr string
  | PList "pyval list"
  | PTuple "pyval list"
  | PDict "(string \<times> pyval) list"

text \<open>
  Exceptions are values. The three \<open>AttributeError\<close>s that \<open>main.py\<close> raises itself are
  told apart by their message: \<open>CityNotFound\<close> (line 52), \<open>StoresNotFound\<close> (line 62)
  and \<open>BadCategoryFormat\<close> (line 183); \<open>NoAttribute\<close> is the \<open>AttributeError\<close> of a
  method looked up on a value that does not have it.
\<close>

datatype error =
    TypeError
  | KeyError string
  | IndexError
  | NoAttribute string
  | CityNotFound string
  | StoresNotFound string
  | BadCategoryFormat
  | FileNotFoundError
  | RequestException
  | NothingToSaveError

text \<open>\<open>d[k]\<close> with a string key: only a \<open>dict\<close> can be subscripted by a string.\<close>

fun py_getitem :: "pyval \<Rightarrow> string \<Rightarrow> error + pyval" where
  "py_getitem (PDict kvs) k = (case map_of kvs k of None \<Rightarrow> Inl (KeyError k) | Some v \<Rightarrow> Inr v)"
| "py_getitem _ k = Inl TypeError"

text \<open>\<open>d.get(k, default)\<close>: a method of \<open>dict\<close> alone.\<close>

fun py_get :: "pyval \<Rightarrow> string \<Rightarrow> pyval \<Rightarrow> error + pyval" where
  "py_get (PDict kvs) k dflt = (case map_of kvs k of None \<Rightarrow> Inr dflt | Some v \<Rightarrow> Inr v)"
| "py_get _ k dflt = Inl (NoAttribute ''get'')"

text \<open>\<open>d.values()\<close>, as the list of values in insertion order.\<close>

fun py_values :: "pyval \<Rightarrow> error + pyval list" where
  "py_values (PDict kvs) = Inr (map snd kvs)"
| "py_values _ = Inl (NoAttribute ''values'')"

text \<open>
  What a \<open>for\<close> loop iterates over: the elements of a list or tuple, the keys of a dict,
  the characters of a string; anything else is not iterable.
\<close>

fun py_iter :: "pyval \<Rightarrow> error + pyval list" where
  "py_iter (PList xs) = Inr xs"
| "py_iter (PTuple xs) = Inr xs"
| "py_iter (PDict kvs) = Inr (map (\<lambda>kv. PStr (fst kv)) kvs)"
| "py_iter (PStr s) = Inr (map (\<lambda>c. PStr [c]) s)"
| "py_iter _ = Inl TypeError"

text \<open>Truth value of an object, as \<open>if x\<close> and \<open>not x\<close> test it.\<close>

fun py_truthy :: "pyval \<Rightarrow> bool" where
  "py_truthy PNone = False"
| "py_truthy (PBool b) = b"
| "py_truthy (PInt i) = (i \<noteq> 0)"
| "py_truthy (PStr s) = (s \<noteq> [])"
| "py_truthy (PList xs) = (xs \<noteq> [])"
| "py_truthy (PTuple xs) = (xs \<noteq> [])"
| "py_truthy (PDict kvs) = (kvs \<noteq> [])"

text \<open>\<open>len(x)\<close>.\<close>

fun py_len :: "pyval \<Rightarrow> error + nat" where
  "py_len (PStr s) = Inr (length s)"
| "py_len (PList xs) = Inr (length xs)"
| "py_len (PTuple xs) = Inr (length xs)"
| "py_len (PDict kvs) = Inr (length kvs)"
| "py_len _ = Inl TypeError"

text \<open>\<open>x[0]\<close>: the first element of a sequence, \<open>x[0]\<close> of a dict looks the key \<open>0\<close> up.\<close>

fun py_first :: "pyval \<Rightarrow> error + pyval" where
  "py_first (PList []) = Inl IndexError"
| "py_first (PList (x # xs)) = Inr x"
| "py_first (PTuple []) = Inl IndexError"
| "py_first (PTuple (x # xs)) = Inr x"
| "py_first (PStr []) = Inl IndexError"
| "py_first (PStr (c # s)) = Inr (PStr [c])"
| "py_first (PDict kvs) = Inl (KeyError ''0'')"
| "py_first _ = Inl TypeError"

text \<open>
  \<open>a == b\<close>. A \<open>bool\<close> is the integer 0 or 1, lists and tuples compare element by
  element, dicts compare as mappings (the order of the entries does not matter), and
  values of different kinds are unequal.
\<close>

fun py_eq :: "pyval \<Rightarrow> pyval \<Rightarrow> bool"
  and py_eq_seq :: "pyval list \<Rightarrow> pyval list \<Rightarrow> bool"
  and py_sub_dict :: "(string \<times> pyval) list \<Rightarrow> (string \<times> pyval) list \<Rightarrow> bool" where
  "py_eq PNone PNone = True"
| "py_eq (PBool a) (PBool b) = (a = b)"
| "py_eq (PBool a) (PInt j) = ((if a then 1 else 0) = j)"
| "py_eq (PInt i) (PBool b) = (i = (if b then 1 else 0))"
| "py_eq (PInt i) (PInt j) = (i = j)"
| "py_eq (PStr s) (PStr t) = (s = t)"
| "py_eq (PList xs) (PList ys) = py_eq_seq xs ys"
| "py_eq (PTuple xs) (PTuple ys) = py_eq_seq xs ys"
| "py_eq (PDict a) (PDict b) = (length a = length b \<and> py_sub_dict a b)"
| "py_eq _ _ = False"
| "py_eq_seq [] [] = True"
| "py_eq_seq (x # xs) (y # ys) = (py_eq x y \<and> py_eq_seq xs ys)"
| "py_eq_seq _ _ = False"
| "py_sub_dict [] b = True"
| "py_sub_dict ((k, v) # a) b =
     ((case map_of b k of None \<Rightarrow> False | Some w \<Rightarrow> py_eq v w) \<and> py_sub_dict a b)"

text \<open>\<open>x in xs\<close> for a list of values: some element equals \<open>x\<close>.\<close>

definition py_in :: "pyval \<Rightarrow> pyval list \<Rightarrow> bool" where
  "py_in x xs = list_ex (\<lambda>v. py_eq v x) xs"

text \<open>\<open>s.split(sep)\<close> for a one-character separator: never an empty list.\<close>

fun split_acc :: "char \<Rightarrow> string \<Rightarrow> string \<Rightarrow> string list" where
  "split_acc sep acc [] = [rev acc]"
| "split_acc sep acc (c # cs) =
     (if c = sep then rev acc # split_acc sep [] cs else split_acc sep (c # acc) cs)"

definition split :: "string \<Rightarrow> char \<Rightarrow> string list" where
  "split s sep = split_acc sep [] s"

text \<open>
  What the program takes from its surroundings: the library functions whose exact
  result nothing proved here depends on (\<open>str.lower\<close>, the formatting of a value inside an
  f-string, \<open>urllib.parse.quote\<close>, the iteration order of a \<open>set\<close> of strings), the
  random draws of \<open>random.choice\<close>, and the network. \<open>session_get k url proxy\<close> is what
  the \<open>k\<close>-th HTTP request of the run meets.
\<close>

record proxy =
  http :: string
  https :: string

datatype outcome =
    Timeout
  | ProxyError
  | OtherFailure
  | Response int "pyval option"

record env =
  str_lower :: "string \<Rightarrow> string"
  format :: "pyval \<Rightarrow> string"
  url_quote :: "string \<Rightarrow> string"
  set_order :: "string set \<Rightarrow> string list"
  random_draw :: "nat \<Rightarrow> nat"
  session_get :: "nat \<Rightarrow> string \<Rightarrow> proxy \<Rightarrow> outcome"


text \<open>\<open>str(i)\<close> of an integer: its decimal digits, after a minus sign when negative.\<close>

function str_nat :: "nat \<Rightarrow> string" where
  "str_nat n =
     (if n < 10 then [''0123456789'' ! n]
      else str_nat (n div 10) @ [''0123456789'' ! (n mod 10)])"
  by pat_completeness auto
termination
  by (relation "measure (\<lambda>n. n)") auto

declare str_nat.simps [simp del]

definition str_int :: "int \<Rightarrow> string" where
  "str_int i = (if i < 0 then CHR ''-'' # str_nat (nat (- i)) else str_nat (nat i))"

section \<open>\<open>misc/crawler.py\<close>\<close>

subsection \<open>\<open>Proxy\<close>\<close>

text \<open>
  \<open>Proxy._prepare_proxy_list\<close> reads \<open>proxies.txt\<close> (here the file's text, \<open>None\<close> when
  the file is missing), splits it at the newlines and makes one entry of every piece.
  Nothing looks at the pieces.
\<close>

definition prepare_proxy_list :: "string option \<Rightarrow> error + proxy list" where
  "prepare_proxy_list proxy_file =
     (case proxy_file of
        None \<Rightarrow> Inl FileNotFoundError
      | Some text \<Rightarrow>
          (let file_proxies = split text (CHR 0x0A)
           in Inr (map (\<lambda>p. \<lparr>http = p, https = p\<rparr>) file_proxies)))"

text \<open>\<open>random.choice(seq)\<close> with the draw \<open>r\<close>; an empty sequence raises \<open>IndexError\<close>.\<close>

definition random_choice :: "nat \<Rightarrow> 'a list \<Rightarrow> error + 'a" where
  "random_choice r xs = (if xs = [] then Inl IndexError else Inr (xs ! (r mod length xs)))"

subsection \<open>\<open>Crawler\<close>\<close>

text \<open>
  The crawler's state: the proxy pool of its \<open>Proxy\<close> object, the \<open>cookie\<close> header of
  its session, and the number of HTTP requests sent so far.
\<close>

record crawler =
  proxies :: "proxy list"
  cookie :: "string option"
  requests :: nat

definition proxy_get :: "env \<Rightarrow> crawler \<Rightarrow> error + proxy" where
  "proxy_get E c = random_choice (random_draw E (requests c)) (proxies c)"

definition max_retry :: int where
  "max_retry = 3"

text \<open>
  \<open>Crawler.get_url\<close>. Every request draws a proxy and is counted. A timeout, a proxy
  error, a status other than 200 and a body that is not JSON (\<open>Response status None\<close>)
  call \<open>get_url\<close> again with \<open>retry + 1\<close>; any other failure of the request is not
  caught. The result \<open>PNone\<close> is the bare \<open>return\<close> of line 81.
\<close>

function get_url :: "env \<Rightarrow> string \<Rightarrow> int \<Rightarrow> crawler \<Rightarrow> (error + pyval) \<times> crawler" where
  "get_url E url retry c =
     (if retry \<ge> max_retry then (Inr PNone, c)
      else
        (case proxy_get E c of
           Inl e \<Rightarrow> (Inl e, c)
         | Inr p \<Rightarrow>
             (let c' = c\<lparr>requests := Suc (requests c)\<rparr>
              in case session_get E (requests c) url p of
                   Timeout \<Rightarrow> get_url E url (retry + 1) c'
                 | ProxyError \<Rightarrow> get_url E url (retry + 1) c'
                 | OtherFailure \<Rightarrow> (Inl RequestException, c')
                 | Response status body \<Rightarrow>
                     if status \<noteq> 200 then get_url E url (retry + 1) c'
                     else
                       (case body of
                          Some v \<Rightarrow> (Inr v, c')
                        | None \<Rightarrow> get_url E url (retry + 1) c'))))"
  by pat_completeness auto
termination
  by (relation "measure (\<lambda>(E, url, retry, c). nat (max_retry - retry))") auto

declare get_url.simps [simp del]

text \<open>\<open>Crawler.search_city\<close> and \<open>Crawler.search_store_ids\<close>.\<close>

definition search_city :: "env \<Rightarrow> string \<Rightarrow> crawler \<Rightarrow> (error + pyval) \<times> crawler" where
  "search_city E city_name c =
     (let encoded_name = url_quote E city_name;
          url = ''https://www.bethowen.ru/api/local/v1/cities/search?term='' @ encoded_name
                @ ''&city_type=all''
      in case get_url E url 0 c of
           (Inl e, c') \<Rightarrow> (Inl e, c')
         | (Inr response, c') \<Rightarrow> (py_getitem response ''cities'', c'))"

definition search_store_ids :: "env \<Rightarrow> pyval \<Rightarrow> crawler \<Rightarrow> (error + pyval) \<times> crawler" where
  "search_store_ids E city_id c =
     (let url = ''https://www.bethowen.ru/local/ajax/getRegionalityData.php'';
          c1 = c\<lparr>cookie := Some (''BETHOWEN_GEO_TOWN_ID='' @ format E city_id @ '';'')\<rparr>
      in case get_url E url 0 c1 of
           (Inl e, c') \<Rightarrow> (Inl e, c')
         | (Inr response, c') \<Rightarrow> (py_getitem response ''stores'', c'))"


text \<open>
  The ways a single request can fail that \<open>get_url\<close> answers with another attempt.
\<close>

fun transient :: "outcome \<Rightarrow> bool" where
  "transient Timeout = True"
| "transient ProxyError = True"
| "transient OtherFailure = False"
| "transient (Response status body) = (status \<noteq> 200 \<or> body = None)"

section \<open>\<open>main.py\<close>\<close>

text \<open>
  The module \<open>configs\<close> is not part of the sources at hand; its values are a parameter.
\<close>

record configs =
  THREADS :: nat
  CITY_NAME :: string
  STORE_ADDRESS :: string
  CATEGORY_NAMES :: pyval

text \<open>
  The attributes of a \<open>Parser\<close> object. \<open>result\<close> and \<open>products\<close> are the two lists of
  the class, \<open>product_list_limit\<close> is the class attribute of line 20 (100 unless
  overridden). A row of \<open>result\<close> is a dict, as in the source. Methods are named as in
  the source without the leading underscore.
\<close>

record parser =
  crawler :: crawler
  city_name :: string
  city_id :: pyval
  store_ids :: pyval
  number_products :: int
  target_categories :: "pyval list"
  product_list_limit :: int
  result :: "pyval list"
  products :: "pyval list"

subsection \<open>\<open>_get_city_id\<close>\<close>

fun get_city_id_loop :: "string \<Rightarrow> pyval list \<Rightarrow> error + pyval" where
  "get_city_id_loop name [] = Inl (CityNotFound name)"
| "get_city_id_loop name (city_data # cities) =
     (case py_getitem city_data ''name'' of
        Inl e \<Rightarrow> Inl e
      | Inr n \<Rightarrow>
          if py_eq n (PStr name) then py_getitem city_data ''id''
          else get_city_id_loop name cities)"

definition get_city_id :: "env \<Rightarrow> string \<Rightarrow> parser \<Rightarrow> (error + pyval) \<times> parser" where
  "get_city_id E name self =
     (case search_city E name (crawler self) of
        (Inl e, c') \<Rightarrow> (Inl e, self\<lparr>crawler := c'\<rparr>)
      | (Inr cities, c') \<Rightarrow>
          (case py_iter cities of
             Inl e \<Rightarrow> (Inl e, self\<lparr>crawler := c'\<rparr>)
           | Inr cs \<Rightarrow> (get_city_id_loop name cs, self\<lparr>crawler := c'\<rparr>)))"

subsection \<open>\<open>_get_store_ids\<close>\<close>

definition get_store_ids :: "env \<Rightarrow> parser \<Rightarrow> (error + pyval) \<times> parser" where
  "get_store_ids E self =
     (case search_store_ids E (city_id self) (crawler self) of
        (Inl e, c') \<Rightarrow> (Inl e, self\<lparr>crawler := c'\<rparr>)
      | (Inr ids, c') \<Rightarrow>
          (let self' = self\<lparr>crawler := c'\<rparr>
           in if \<not> py_truthy ids then (Inl (StoresNotFound (city_name self)), self')
              else
                (case py_len ids of
                   Inl e \<Rightarrow> (Inl e, self')
                 | Inr n \<Rightarrow>
                     if n = 1 then
                       (case py_first ids of
                          Inl e \<Rightarrow> (Inl e, self')
                        | Inr x \<Rightarrow>
                            if py_eq x (PInt 0)
                            then (Inl (StoresNotFound (city_name self)), self')
                            else (Inr ids, self'))
                     else (Inr ids, self'))))"

subsection \<open>\<open>_prepare_product_list_urls\<close>\<close>

text \<open>
  The \<open>while\<close> loop of lines 99 to 102, on the remaining count, the offset and the list
  built so far. It need not end (a limit of 0 never lowers the count), so its result is
  an option. The count is lowered by the limit, the offset raised by the literal 100.
\<close>

partial_function (option) product_list_urls_loop ::
  "string \<Rightarrow> int \<Rightarrow> int \<Rightarrow> int \<Rightarrow> string list \<Rightarrow> (string list \<times> int) option" where
  "product_list_urls_loop url_part limit n offset urls =
     (if n > 0 then
        product_list_urls_loop url_part limit (n - limit) (offset + 100)
          (urls @ [url_part @ ''offset='' @ str_int offset @ ''&sort_type=popular&id[]''])
      else Some (urls, n))"

declare product_list_urls_loop.simps [code]

definition prepare_product_list_urls :: "parser \<Rightarrow> (string list \<times> parser) option" where
  "prepare_product_list_urls self =
     (let url_part = ''https://www.bethowen.ru/api/local/v1/catalog/list?limit=''
                     @ str_int (product_list_limit self) @ ''&''
      in case product_list_urls_loop url_part (product_list_limit self)
                (number_products self) 0 [] of
           None \<Rightarrow> None
         | Some (urls, n) \<Rightarrow> Some (urls, self\<lparr>number_products := n\<rparr>))"

subsection \<open>\<open>_get_product_list\<close>\<close>

definition get_product_list :: "env \<Rightarrow> string \<Rightarrow> parser \<Rightarrow> (error + unit) \<times> parser" where
  "get_product_list E url self =
     (case get_url E url 0 (crawler self) of
        (Inl e, c') \<Rightarrow> (Inl e, self\<lparr>crawler := c'\<rparr>)
      | (Inr response, c') \<Rightarrow>
          (let self' = self\<lparr>crawler := c'\<rparr>
           in if py_truthy response then
                (case py_getitem response ''products'' of
                   Inl e \<Rightarrow> (Inl e, self')
                 | Inr ps \<Rightarrow>
                     (case py_iter ps of
                        Inl e \<Rightarrow> (Inl e, self')
                      | Inr new \<Rightarrow> (Inr (), self'\<lparr>products := products self' @ new\<rparr>)))
              else (Inr (), self')))"

subsection \<open>\<open>_prepare_categories\<close>\<close>

fun is_str :: "pyval \<Rightarrow> bool" where
  "is_str (PStr s) = True"
| "is_str _ = False"

fun prepare_categories_loop :: "pyval list \<Rightarrow> error option" where
  "prepare_categories_loop [] = None"
| "prepare_categories_loop (category # rest) =
     (if \<not> is_str category then Some BadCategoryFormat else prepare_categories_loop rest)"

fun prepare_categories :: "pyval \<Rightarrow> error + pyval list" where
  "prepare_categories (PList xs) =
     (if length xs = 1 \<and> is_str (xs ! 0) then Inr [PList xs]
      else
        (case prepare_categories_loop xs of
           Some e \<Rightarrow> Inl e
         | None \<Rightarrow> Inr xs))"
| "prepare_categories (PStr s) = Inr [PStr s]"
| "prepare_categories _ = Inr []"

subsection \<open>\<open>_get_offer_categories\<close> and \<open>_is_target_category\<close>\<close>

fun get_offer_categories_loop :: "pyval \<Rightarrow> pyval list \<Rightarrow> error + pyval" where
  "get_offer_categories_loop offer_id [] = Inr (PDict [])"
| "get_offer_categories_loop offer_id (offer_data # rest) =
     (case py_getitem offer_data ''id'' of
        Inl e \<Rightarrow> Inl e
      | Inr i \<Rightarrow>
          if py_eq i offer_id then py_getitem offer_data ''categories_chain''
          else get_offer_categories_loop offer_id rest)"

definition get_offer_categories :: "pyval \<Rightarrow> pyval \<Rightarrow> error + pyval" where
  "get_offer_categories offer_id product_data =
     (case py_get product_data ''offers'' (PList []) of
        Inl e \<Rightarrow> Inl e
      | Inr product_offers \<Rightarrow>
          (case py_iter product_offers of
             Inl e \<Rightarrow> Inl e
           | Inr os \<Rightarrow> get_offer_categories_loop offer_id os))"

fun is_target_category_loop :: "pyval \<Rightarrow> pyval list \<Rightarrow> error + bool" where
  "is_target_category_loop offer_categories [] = Inr True"
| "is_target_category_loop offer_categories (category # rest) =
     (case py_values offer_categories of
        Inl e \<Rightarrow> Inl e
      | Inr vs \<Rightarrow>
          if \<not> py_in category vs then Inr False
          else is_target_category_loop offer_categories rest)"

definition is_target_category :: "parser \<Rightarrow> pyval \<Rightarrow> pyval \<Rightarrow> error + bool" where
  "is_target_category self offer_id product_data =
     (if target_categories self \<noteq> [] then
        (case get_offer_categories offer_id product_data of
           Inl e \<Rightarrow> Inl e
         | Inr offer_categories \<Rightarrow>
             is_target_category_loop offer_categories (target_categories self))
      else Inr True)"

subsection \<open>\<open>_is_target_store\<close>\<close>

fun is_target_store_loop :: "env \<Rightarrow> configs \<Rightarrow> pyval list \<Rightarrow> error + bool" where
  "is_target_store_loop E cfg [] = Inr False"
| "is_target_store_loop E cfg (store_data # rest) =
     (case py_getitem store_data ''address'' of
        Inl e \<Rightarrow> Inl e
      | Inr (PStr address) \<Rightarrow>
          if sublist (str_lower E (STORE_ADDRESS cfg)) (str_lower E address) then Inr True
          else is_target_store_loop E cfg rest
      | Inr _ \<Rightarrow> Inl (NoAttribute ''lower''))"

definition is_target_store :: "env \<Rightarrow> configs \<Rightarrow> pyval \<Rightarrow> error + bool" where
  "is_target_store E cfg offer_data =
     (case py_getitem offer_data ''availability_info'' of
        Inl e \<Rightarrow> Inl e
      | Inr info \<Rightarrow>
          (case py_getitem info ''offer_store_amount'' of
             Inl e \<Rightarrow> Inl e
           | Inr offer_stores \<Rightarrow>
               (case py_iter offer_stores of
                  Inl e \<Rightarrow> Inl e
                | Inr stores \<Rightarrow> is_target_store_loop E cfg stores)))"


subsection \<open>\<open>_prepare_offer_list_urls\<close> and \<open>_get_offer_details\<close>\<close>

fun prepare_offer_list_urls_loop :: "env \<Rightarrow> pyval list \<Rightarrow> string set \<Rightarrow> error + string set" where
  "prepare_offer_list_urls_loop E [] offer_urls = Inr offer_urls"
| "prepare_offer_list_urls_loop E (offer # rest) offer_urls =
     (case py_getitem offer ''id'' of
        Inl e \<Rightarrow> Inl e
      | Inr i \<Rightarrow>
          prepare_offer_list_urls_loop E rest
            (insert (''https://www.bethowen.ru/api/local/v1/catalog/offers/'' @ format E i
                     @ ''/details'') offer_urls))"

definition prepare_offer_list_urls :: "env \<Rightarrow> pyval \<Rightarrow> error + string set" where
  "prepare_offer_list_urls E offers_data =
     (case py_iter offers_data of
        Inl e \<Rightarrow> Inl e
      | Inr os \<Rightarrow> prepare_offer_list_urls_loop E os {})"

text \<open>\<open>list(map(self.crawler.get_url, offer_urls))\<close>: one fetch after the other.\<close>

fun get_urls :: "env \<Rightarrow> string list \<Rightarrow> crawler \<Rightarrow> (error + pyval list) \<times> crawler" where
  "get_urls E [] c = (Inr [], c)"
| "get_urls E (url # urls) c =
     (case get_url E url 0 c of
        (Inl e, c') \<Rightarrow> (Inl e, c')
      | (Inr response, c') \<Rightarrow>
          (case get_urls E urls c' of
             (Inl e, c'') \<Rightarrow> (Inl e, c'')
           | (Inr responses, c'') \<Rightarrow> (Inr (response # responses), c'')))"

text \<open>
  The \<open>for\<close> loop of lines 124 to 137 over the fetched responses. A row appended before
  an exception stays in \<open>result\<close>.
\<close>

fun get_offer_details_loop ::
  "env \<Rightarrow> configs \<Rightarrow> pyval \<Rightarrow> pyval list \<Rightarrow> parser \<Rightarrow> (error + unit) \<times> parser" where
  "get_offer_details_loop E cfg product_data [] self = (Inr (), self)"
| "get_offer_details_loop E cfg product_data (offer_data # rest) self =
     (case is_target_store E cfg offer_data of
        Inl e \<Rightarrow> (Inl e, self)
      | Inr False \<Rightarrow> get_offer_details_loop E cfg product_data rest self
      | Inr True \<Rightarrow>
         (case py_getitem offer_data ''id'' of
            Inl e \<Rightarrow> (Inl e, self)
          | Inr offer_id \<Rightarrow>
             (case is_target_category self offer_id product_data of
                Inl e \<Rightarrow> (Inl e, self)
              | Inr False \<Rightarrow> get_offer_details_loop E cfg product_data rest self
              | Inr True \<Rightarrow>
                 (case py_getitem product_data ''id'' of
                    Inl e \<Rightarrow> (Inl e, self)
                  | Inr product_id \<Rightarrow>
                 (case py_getitem product_data ''name'' of
                    Inl e \<Rightarrow> (Inl e, self)
                  | Inr product_name \<Rightarrow>
                 (case py_getitem offer_data ''size'' of
                    Inl e \<Rightarrow> (Inl e, self)
                  | Inr product_size \<Rightarrow>
                 (case py_getitem offer_data ''retail_price'' of
                    Inl e \<Rightarrow> (Inl e, self)
                  | Inr retail_price \<Rightarrow>
                 (case py_getitem offer_data ''discount_price'' of
                    Inl e \<Rightarrow> (Inl e, self)
                  | Inr discount_price \<Rightarrow>
                      get_offer_details_loop E cfg product_data rest
                        (self\<lparr>result := result self @
                           [PDict
                              [(''city'', PStr (CITY_NAME cfg)),
                               (''city_id'', city_id self),
                               (''store_address'', PStr (STORE_ADDRESS cfg)),
                               (''product_id'', product_id),
                               (''product_name'', product_name),
                               (''product_size'', product_size),
                               (''retail_price'', retail_price),
                               (''discount_price'', discount_price)]]\<rparr>)))))))))"

definition get_offer_details ::
  "env \<Rightarrow> configs \<Rightarrow> pyval \<Rightarrow> parser \<Rightarrow> (error + unit) \<times> parser" where
  "get_offer_details E cfg product_data self =
     (case py_get product_data ''offers'' (PList []) of
        Inl e \<Rightarrow> (Inl e, self)
      | Inr offers \<Rightarrow>
          (case prepare_offer_list_urls E offers of
             Inl e \<Rightarrow> (Inl e, self)
           | Inr offer_urls \<Rightarrow>
               (case get_urls E (set_order E offer_urls) (crawler self) of
                  (Inl e, c') \<Rightarrow> (Inl e, self\<lparr>crawler := c'\<rparr>)
                | (Inr offer_responses, c') \<Rightarrow>
                    get_offer_details_loop E cfg product_data offer_responses
                      (self\<lparr>crawler := c'\<rparr>))))"


section \<open>Sample surroundings and data\<close>

text \<open>
  A concrete environment to run the program in: lower-casing of ASCII letters, ids
  formatted as they are written, and a network that answers the \<open>k\<close>-th request with
  \<open>net k\<close> whatever the URL and the proxy.
\<close>

definition ascii_lower :: "string \<Rightarrow> string" where
  "ascii_lower s =
     map (\<lambda>c. case map_of (zip ''ABCDEFGHIJKLMNOPQRSTUVWXYZ'' ''abcdefghijklmnopqrstuvwxyz'') c of
                 None \<Rightarrow> c
               | Some l \<Rightarrow> l) s"

fun sample_format :: "pyval \<Rightarrow> string" where
  "sample_format (PStr s) = s"
| "sample_format (PInt i) = str_int i"
| "sample_format _ = ''None''"

definition sample_env :: "(nat \<Rightarrow> outcome) \<Rightarrow> string list \<Rightarrow> env" where
  "sample_env net order =
     \<lparr>str_lower = ascii_lower, format = sample_format, url_quote = (\<lambda>s. s),
      set_order = (\<lambda>S. order), random_draw = (\<lambda>k. 0), session_get = (\<lambda>k url p. net k)\<rparr>"

definition sample_crawler :: crawler where
  "sample_crawler = \<lparr>proxies = [\<lparr>http = ''10.0.0.1:80'', https = ''10.0.0.1:80''\<rparr>],
                      cookie = None, requests = 0\<rparr>"

definition sample_configs :: configs where
  "sample_configs = \<lparr>THREADS = 4, CITY_NAME = ''Springfield'', STORE_ADDRESS = ''lenina st 5'',
                      CATEGORY_NAMES = PNone\<rparr>"

definition sample_parser :: "int \<Rightarrow> int \<Rightarrow> pyval list \<Rightarrow> parser" where
  "sample_parser limit n categories =
     \<lparr>crawler = sample_crawler, city_name = ''Springfield'', city_id = PStr ''77'',
      store_ids = PList [PInt 5, PInt 6], number_products = n,
      target_categories = categories, product_list_limit = limit,
      result = [], products = []\<rparr>"

text \<open>A network on which every request times out, and one that always answers \<open>v\<close>.\<close>

definition all_timeout :: "nat \<Rightarrow> outcome" where
  "all_timeout k = Timeout"

definition always :: "pyval \<Rightarrow> nat \<Rightarrow> outcome" where
  "always v k = Response 200 (Some v)"


text \<open>A city search result with a near miss before two exact matches.\<close>

definition sample_cities :: pyval where
  "sample_cities = PDict [(''cities'', PList
      [PDict [(''id'', PStr ''76''), (''name'', PStr ''springfield'')],
       PDict [(''id'', PStr ''77''), (''name'', PStr ''Springfield'')],
       PDict [(''id'', PStr ''78''), (''name'', PStr ''Springfield'')]])]"

text \<open>A product with two offer summaries, and the detail response of its second offer.\<close>

definition sample_product :: pyval where
  "sample_product = PDict
     [(''id'', PInt 1001), (''name'', PStr ''Bowl''),
      (''offers'', PList
         [PDict [(''id'', PInt 11), (''categories_chain'', PDict [(''1'', PStr ''Cats'')])],
          PDict [(''id'', PInt 12), (''categories_chain'',
             PDict [(''1'', PStr ''Dogs''), (''2'', PStr ''Bowls''), (''3'', PStr ''Stand Bowls'')])]])]"

definition sample_offer :: pyval where
  "sample_offer = PDict
     [(''id'', PInt 12), (''size'', PStr ''0.5 l''), (''retail_price'', PInt 499),
      (''discount_price'', PInt 449),
      (''availability_info'', PDict [(''offer_store_amount'', PList
          [PDict [(''address'', PStr ''Kazan, Mira 1''), (''amount'', PInt 2)],
           PDict [(''address'', PStr ''Moscow, Lenina st 5''), (''amount'', PInt 1)]])])]"

text \<open>
  To state what the page URLs are: the URL of the page at an offset, as line 100 formats
  it, and the number of pages, the quotient of the count by the limit rounded up.
\<close>

definition page_url :: "string \<Rightarrow> int \<Rightarrow> string" where
  "page_url url_part offset = url_part @ ''offset='' @ str_int offset @ ''&sort_type=popular&id[]''"

definition pages :: "int \<Rightarrow> int \<Rightarrow> nat" where
  "pages n limit = nat ((n + limit - 1) div limit)"

text \<open>
  A network whose first three requests time out and which answers \<open>v\<close> from then on,
  a product with a single offer, and the detail URLs of the offers 11 and 12.
\<close>

definition absent_then :: "pyval \<Rightarrow> nat \<Rightarrow> outcome" where
  "absent_then v k = (if k < 3 then Timeout else Response 200 (Some v))"

definition sample_product_one :: pyval where
  "sample_product_one = PDict
     [(''id'', PInt 1001), (''name'', PStr ''Bowl''),
      (''offers'', PList [PDict [(''id'', PInt 12), (''categories_chain'', PDict [])]])]"

definition offer_url_11 :: string where
  "offer_url_11 = ''https://www.bethowen.ru/api/local/v1/catalog/offers/11/details''"

definition offer_url_12 :: string where
  "offer_url_12 = ''https://www.bethowen.ru/api/local/v1/catalog/offers/12/details''"

section \<open>Location resolution\<close>

text \<open>
  C8: \<open>_get_store_ids\<close> raises the "stores not found" error exactly when the list of
  store ids that the crawler returned is empty or is the one-element list \<open>[0]\<close>; any
  other list, \<open>[0, 5]\<close> among them, is returned as it is.
\<close>

theorem get_store_ids_fails_iff:
  assumes "search_store_ids E (city_id self) (crawler self) = (Inr (PList (map PInt ids)), c')"
  shows "fst (get_store_ids E self) =
     (if ids = [] \<or> ids = [0] then Inl (StoresNotFound (city_name self))
      else Inr (PList (map PInt ids)))"
proof (cases ids)
  case Nil
  with assms show ?thesis by (simp add: get_store_ids_def)
next
  case (Cons i rest)
  with assms show ?thesis
    by (cases rest) (simp_all add: get_store_ids_def Let_def)
qed

theorem get_store_ids_fails_iff_witness:
  "search_store_ids (sample_env (always (PDict [(''stores'', PList [PInt 0, PInt 5])])) [])
      (city_id (sample_parser 100 1 [])) (crawler (sample_parser 100 1 []))
    = (Inr (PList (map PInt [0, 5])),
       sample_crawler\<lparr>cookie := Some ''BETHOWEN_GEO_TOWN_ID=77;'', requests := 1\<rparr>)
   \<and> fst (get_store_ids (sample_env (always (PDict [(''stores'', PList [PInt 0, PInt 5])])) [])
          (sample_parser 100 1 [])) = Inr (PList [PInt 0, PInt 5])
   \<and> fst (get_store_ids (sample_env (always (PDict [(''stores'', PList [PInt 0])])) [])
          (sample_parser 100 1 [])) = Inl (StoresNotFound ''Springfield'')"
proof -
  have a: "search_store_ids (sample_env (always (PDict [(''stores'', PList [PInt 0, PInt 5])])) [])
      (city_id (sample_parser 100 1 [])) (crawler (sample_parser 100 1 []))
    = (Inr (PList (map PInt [0, 5])),
       sample_crawler\<lparr>cookie := Some ''BETHOWEN_GEO_TOWN_ID=77;'', requests := 1\<rparr>)"
    by (simp add: search_store_ids_def get_url.simps sample_env_def always_def
        sample_crawler_def proxy_get_def random_choice_def max_retry_def sample_parser_def)
  have b: "search_store_ids (sample_env (always (PDict [(''stores'', PList [PInt 0])])) [])
      (city_id (sample_parser 100 1 [])) (crawler (sample_parser 100 1 []))
    = (Inr (PList (map PInt [0])),
       sample_crawler\<lparr>cookie := Some ''BETHOWEN_GEO_TOWN_ID=77;'', requests := 1\<rparr>)"
    by (simp add: search_store_ids_def get_url.simps sample_env_def always_def
        sample_crawler_def proxy_get_def random_choice_def max_retry_def sample_parser_def)
  show ?thesis
    using a get_store_ids_fails_iff [OF a] get_store_ids_fails_iff [OF b]
    by (simp add: sample_parser_def)
qed

lemma py_eq_PStr: "py_eq v (PStr s) \<longleftrightarrow> v = PStr s"
  by (cases v) auto

lemma get_city_id_loop_find:
  assumes "\<forall>c\<in>set cities. \<exists>n i. py_getitem c ''name'' = Inr n \<and> py_getitem c ''id'' = Inr i"
  shows "get_city_id_loop name cities =
     (case find (\<lambda>c. py_getitem c ''name'' = Inr (PStr name)) cities of
        None \<Rightarrow> Inl (CityNotFound name)
      | Some c \<Rightarrow> py_getitem c ''id'')"
  using assms
proof (induction cities)
  case Nil
  show ?case by simp
next
  case (Cons c cities)
  from Cons.prems obtain n i where c: "py_getitem c ''name'' = Inr n" "py_getitem c ''id'' = Inr i"
    by auto
  from Cons have IH: "get_city_id_loop name cities =
     (case find (\<lambda>c. py_getitem c ''name'' = Inr (PStr name)) cities of
        None \<Rightarrow> Inl (CityNotFound name)
      | Some c \<Rightarrow> py_getitem c ''id'')" by simp
  show ?case
    by (simp add: c IH py_eq_PStr)
qed

text \<open>
  C7: when the city search returns the candidates \<open>cities\<close>, each with a name and an id,
  \<open>_get_city_id\<close> returns the id of the first candidate whose name is exactly the
  requested string, and it fails, with the "not found" error, exactly when no candidate
  has that name; an empty candidate list is such a case.
\<close>

theorem get_city_id_first_exact_match:
  assumes "search_city E name (crawler self) = (Inr (PList cities), c')"
    and "\<forall>c\<in>set cities. \<exists>n i. py_getitem c ''name'' = Inr n \<and> py_getitem c ''id'' = Inr i"
  shows "fst (get_city_id E name self) =
           (case find (\<lambda>c. py_getitem c ''name'' = Inr (PStr name)) cities of
              None \<Rightarrow> Inl (CityNotFound name)
            | Some c \<Rightarrow> py_getitem c ''id'')
         \<and> (isl (fst (get_city_id E name self)) \<longleftrightarrow>
              (\<forall>c\<in>set cities. py_getitem c ''name'' \<noteq> Inr (PStr name)))"
proof -
  have r: "fst (get_city_id E name self) = get_city_id_loop name cities"
    using assms(1) by (simp add: get_city_id_def)
  have eq: "fst (get_city_id E name self) =
           (case find (\<lambda>c. py_getitem c ''name'' = Inr (PStr name)) cities of
              None \<Rightarrow> Inl (CityNotFound name)
            | Some c \<Rightarrow> py_getitem c ''id'')"
    unfolding r by (rule get_city_id_loop_find [OF assms(2)])
  have "isl (fst (get_city_id E name self)) \<longleftrightarrow>
              (\<forall>c\<in>set cities. py_getitem c ''name'' \<noteq> Inr (PStr name))"
  proof (cases "find (\<lambda>c. py_getitem c ''name'' = Inr (PStr name)) cities")
    case None
    then have "\<forall>c\<in>set cities. py_getitem c ''name'' \<noteq> Inr (PStr name)"
      by (auto simp: find_None_iff)
    then show ?thesis unfolding eq using None by simp
  next
    case (Some c)
    then have "c \<in> set cities" "py_getitem c ''name'' = Inr (PStr name)"
      by (auto simp: find_Some_iff)
    moreover from this assms(2) obtain i where "py_getitem c ''id'' = Inr i" by blast
    ultimately show ?thesis unfolding eq using Some by auto
  qed
  with eq show ?thesis by simp
qed

theorem get_city_id_first_exact_match_witness:
  "search_city (sample_env (always sample_cities) []) ''Springfield''
      (crawler (sample_parser 100 1 []))
    = (Inr (PList
        [PDict [(''id'', PStr ''76''), (''name'', PStr ''springfield'')],
         PDict [(''id'', PStr ''77''), (''name'', PStr ''Springfield'')],
         PDict [(''id'', PStr ''78''), (''name'', PStr ''Springfield'')]]),
       sample_crawler\<lparr>requests := 1\<rparr>)
   \<and> fst (get_city_id (sample_env (always sample_cities) []) ''Springfield''
            (sample_parser 100 1 [])) = Inr (PStr ''77'')
   \<and> fst (get_city_id (sample_env (always (PDict [(''cities'', PList [])])) []) ''Springfield''
            (sample_parser 100 1 [])) = Inl (CityNotFound ''Springfield'')"
proof -
  have a: "search_city (sample_env (always sample_cities) []) ''Springfield''
      (crawler (sample_parser 100 1 []))
    = (Inr (PList
        [PDict [(''id'', PStr ''76''), (''name'', PStr ''springfield'')],
         PDict [(''id'', PStr ''77''), (''name'', PStr ''Springfield'')],
         PDict [(''id'', PStr ''78''), (''name'', PStr ''Springfield'')]]),
       sample_crawler\<lparr>requests := 1\<rparr>)"
    by (simp add: search_city_def get_url.simps sample_env_def always_def sample_cities_def
        sample_crawler_def proxy_get_def random_choice_def max_retry_def sample_parser_def)
  have b: "\<forall>c\<in>set [PDict [(''id'', PStr ''76''), (''name'', PStr ''springfield'')],
         PDict [(''id'', PStr ''77''), (''name'', PStr ''Springfield'')],
         PDict [(''id'', PStr ''78''), (''name'', PStr ''Springfield'')]].
         \<exists>n i. py_getitem c ''name'' = Inr n \<and> py_getitem c ''id'' = Inr i"
    by simp
  have c: "search_city (sample_env (always (PDict [(''cities'', PList [])])) []) ''Springfield''
      (crawler (sample_parser 100 1 []))
    = (Inr (PList []), sample_crawler\<lparr>requests := 1\<rparr>)"
    by (simp add: search_city_def get_url.simps sample_env_def always_def
        sample_crawler_def proxy_get_def random_choice_def max_retry_def sample_parser_def)
  have d: "\<forall>c\<in>set ([] :: pyval list).
         \<exists>n i. py_getitem c ''name'' = Inr n \<and> py_getitem c ''id'' = Inr i"
    by simp
  show ?thesis
    using a get_city_id_first_exact_match [OF a b] get_city_id_first_exact_match [OF c d]
    by simp
qed

section \<open>Category configuration\<close>

lemma prepare_categories_loop_None: "prepare_categories_loop xs = None \<longleftrightarrow> list_all is_str xs"
  by (induction xs) auto

lemma prepare_categories_loop_Some:
  "prepare_categories_loop xs = Some e \<longleftrightarrow> e = BadCategoryFormat \<and> \<not> list_all is_str xs"
  by (induction xs) auto

text \<open>
  What \<open>_prepare_categories\<close> does on each kind of input: a string becomes the list of
  that string, \<open>None\<close> the empty list, a list with an element that is not a string raises,
  and a list of strings whose length is not 1 comes back as it is.
\<close>

lemma prepare_categories_string: "prepare_categories (PStr s) = Inr [PStr s]"
  by simp

lemma prepare_categories_None: "prepare_categories PNone = Inr []"
  by simp

lemma prepare_categories_bad_list:
  assumes "\<not> list_all is_str xs"
  shows "prepare_categories (PList xs) = Inl BadCategoryFormat"
proof -
  from assms have "prepare_categories_loop xs = Some BadCategoryFormat"
    by (simp add: prepare_categories_loop_Some)
  moreover have "\<not> (length xs = 1 \<and> is_str (xs ! 0))"
    using assms by (cases xs) auto
  ultimately show ?thesis by simp
qed

lemma prepare_categories_string_list:
  "list_all is_str xs \<Longrightarrow> length xs \<noteq> 1 \<Longrightarrow> prepare_categories (PList xs) = Inr xs"
  by (simp add: prepare_categories_loop_None split: option.splits)

text \<open>
  C3: a list of strings is meant to pass through unchanged, but the list of one string
  does not: line 179 wraps the whole list once more, so \<open>['Dogs']\<close> becomes
  \<open>[['Dogs']]\<close>, a list whose only element is a list.
\<close>

theorem prepare_categories_one_string_wrapped:
  "prepare_categories (PList [PStr ''Dogs'']) = Inr [PList [PStr ''Dogs'']]
   \<and> prepare_categories (PList [PStr ''Dogs'']) \<noteq> Inr [PStr ''Dogs'']"
  by simp

text \<open>
  What the wrapped list does further on: a target path whose only element is a list is
  never found among category names, so no offer matches it.
\<close>

lemma py_eq_str_list: "is_str v \<Longrightarrow> \<not> py_eq v (PList xs)"
  by (cases v) auto

lemma is_target_category_wrapped_never_matches:
  assumes "target_categories self = [PList xs]"
    and "get_offer_categories offer_id product_data = Inr (PDict ch)"
    and "\<forall>v\<in>snd ` set ch. is_str v"
  shows "is_target_category self offer_id product_data = Inr False"
proof -
  from assms(3) have "\<not> py_in (PList xs) (map snd ch)"
    by (auto simp: py_in_def list_ex_iff py_eq_str_list)
  with assms(1,2) show ?thesis by (simp add: is_target_category_def)
qed

section \<open>Matching offers\<close>

lemma py_in_PStr: "py_in (PStr n) vs \<longleftrightarrow> PStr n \<in> set vs"
  by (auto simp: py_in_def list_ex_iff py_eq_PStr)

lemma is_target_category_loop_names:
  "is_target_category_loop (PDict ch) (map PStr names) =
     Inr (\<forall>n\<in>set names. PStr n \<in> snd ` set ch)"
  by (induction names) (auto simp: py_in_PStr)

lemma get_offer_categories_loop_find:
  assumes "\<forall>x\<in>set offers. \<exists>i. py_getitem x ''id'' = Inr i"
  shows "get_offer_categories_loop offer_id offers =
     (case find (\<lambda>x. \<exists>i. py_getitem x ''id'' = Inr i \<and> py_eq i offer_id) offers of
        None \<Rightarrow> Inr (PDict [])
      | Some x \<Rightarrow> py_getitem x ''categories_chain'')"
  using assms
proof (induction offers)
  case Nil
  show ?case by simp
next
  case (Cons x offers)
  from Cons.prems obtain i where i: "py_getitem x ''id'' = Inr i" by auto
  from Cons have IH: "get_offer_categories_loop offer_id offers =
     (case find (\<lambda>x. \<exists>i. py_getitem x ''id'' = Inr i \<and> py_eq i offer_id) offers of
        None \<Rightarrow> Inr (PDict [])
      | Some x \<Rightarrow> py_getitem x ''categories_chain'')" by simp
  show ?case by (simp add: i IH)
qed

text \<open>
  C5: with a target path of category names and a product whose offer summaries carry an
  id and a category chain, \<open>_is_target_category\<close> returns true exactly when the path
  is empty or every name of the path is among the values of the category chain of the
  first offer summary whose id equals the given offer id. The chain with the values
  Dogs, Bowls, Stand Bowls satisfies the path Dogs, Bowls and not the path Dogs, Leashes.
\<close>

theorem is_target_category_iff:
  assumes "target_categories self = map PStr names"
    and "py_get product_data ''offers'' (PList []) = Inr (PList offers)"
    and "\<forall>x\<in>set offers. \<exists>i ch. py_getitem x ''id'' = Inr i
            \<and> py_getitem x ''categories_chain'' = Inr (PDict ch)"
  shows "is_target_category self offer_id product_data =
     Inr (names = [] \<or>
          (\<exists>x ch. find (\<lambda>x. \<exists>i. py_getitem x ''id'' = Inr i \<and> py_eq i offer_id) offers = Some x
                 \<and> py_getitem x ''categories_chain'' = Inr (PDict ch)
                 \<and> (\<forall>n\<in>set names. PStr n \<in> snd ` set ch)))"
proof (cases "names = []")
  case True
  with assms(1) show ?thesis by (simp add: is_target_category_def)
next
  case False
  have ids: "\<forall>x\<in>set offers. \<exists>i. py_getitem x ''id'' = Inr i" using assms(3) by blast
  have goc: "get_offer_categories offer_id product_data =
     (case find (\<lambda>x. \<exists>i. py_getitem x ''id'' = Inr i \<and> py_eq i offer_id) offers of
        None \<Rightarrow> Inr (PDict [])
      | Some x \<Rightarrow> py_getitem x ''categories_chain'')"
    by (simp add: get_offer_categories_def assms(2) get_offer_categories_loop_find [OF ids])
  show ?thesis
  proof (cases "find (\<lambda>x. \<exists>i. py_getitem x ''id'' = Inr i \<and> py_eq i offer_id) offers")
    case None
    from False obtain n ns where "names = n # ns" by (cases names) auto
    with None show ?thesis
      by (simp add: is_target_category_def assms(1) goc py_in_def)
  next
    case (Some x)
    then have "x \<in> set offers" by (auto simp: find_Some_iff)
    with assms(3) obtain ch where ch: "py_getitem x ''categories_chain'' = Inr (PDict ch)"
      by blast
    with Some False show ?thesis
      by (simp add: is_target_category_def assms(1) goc is_target_category_loop_names)
  qed
qed

theorem is_target_category_iff_witness:
  "is_target_category (sample_parser 100 1 (map PStr [''Dogs'', ''Bowls''])) (PInt 12) sample_product = Inr True
  \<and> is_target_category (sample_parser 100 1 (map PStr [''Dogs'', ''Leashes''])) (PInt 12) sample_product = Inr False"
proof -
  let ?offers = "[PDict [(''id'', PInt 11), (''categories_chain'', PDict [(''1'', PStr ''Cats'')])],
          PDict [(''id'', PInt 12), (''categories_chain'',
             PDict [(''1'', PStr ''Dogs''), (''2'', PStr ''Bowls''), (''3'', PStr ''Stand Bowls'')])]]"
  have a: "target_categories (sample_parser 100 1 (map PStr [''Dogs'', ''Bowls''])) = map PStr [''Dogs'', ''Bowls'']"
    by (simp add: sample_parser_def)
  have a': "target_categories (sample_parser 100 1 (map PStr [''Dogs'', ''Leashes''])) = map PStr [''Dogs'', ''Leashes'']"
    by (simp add: sample_parser_def)
  have b: "py_get sample_product ''offers'' (PList []) = Inr (PList ?offers)"
    by (simp add: sample_product_def)
  have c: "\<forall>x\<in>set ?offers. \<exists>i ch. py_getitem x ''id'' = Inr i
            \<and> py_getitem x ''categories_chain'' = Inr (PDict ch)"
    by simp
  show ?thesis
    using is_target_category_iff [OF a b c, of "PInt 12"] is_target_category_iff [OF a' b c, of "PInt 12"]
    by simp
qed

lemma is_target_store_loop_ex:
  assumes "\<forall>s\<in>set stores. \<exists>a. py_getitem s ''address'' = Inr (PStr a)"
  shows "is_target_store_loop E cfg stores =
     Inr (\<exists>s\<in>set stores. \<exists>a. py_getitem s ''address'' = Inr (PStr a)
            \<and> sublist (str_lower E (STORE_ADDRESS cfg)) (str_lower E a))"
  using assms
proof (induction stores)
  case Nil
  show ?case by simp
next
  case (Cons s stores)
  from Cons.prems obtain a where a: "py_getitem s ''address'' = Inr (PStr a)" by auto
  from Cons have IH: "is_target_store_loop E cfg stores =
     Inr (\<exists>s\<in>set stores. \<exists>a. py_getitem s ''address'' = Inr (PStr a)
            \<and> sublist (str_lower E (STORE_ADDRESS cfg)) (str_lower E a))" by simp
  show ?case by (simp add: a IH)
qed

text \<open>
  C6: for an offer whose availability info lists stores with string addresses,
  \<open>_is_target_store\<close> returns true exactly when the lower-cased configured store
  address is a substring of the lower-cased address of at least one listed store. The
  address "Moscow, Lenina st 5" matches the configured address "lenina st 5".
\<close>

theorem is_target_store_iff:
  assumes "py_getitem offer_data ''availability_info'' = Inr info"
    and "py_getitem info ''offer_store_amount'' = Inr (PList stores)"
    and "\<forall>s\<in>set stores. \<exists>a. py_getitem s ''address'' = Inr (PStr a)"
  shows "is_target_store E cfg offer_data =
     Inr (\<exists>s\<in>set stores. \<exists>a. py_getitem s ''address'' = Inr (PStr a)
            \<and> sublist (str_lower E (STORE_ADDRESS cfg)) (str_lower E a))"
  by (simp add: is_target_store_def assms(1,2) is_target_store_loop_ex [OF assms(3)])

theorem is_target_store_iff_witness:
  "is_target_store (sample_env all_timeout []) sample_configs sample_offer = Inr True"
proof -
  let ?stores = "[PDict [(''address'', PStr ''Kazan, Mira 1''), (''amount'', PInt 2)],
           PDict [(''address'', PStr ''Moscow, Lenina st 5''), (''amount'', PInt 1)]]"
  have a: "py_getitem sample_offer ''availability_info'' = Inr (PDict [(''offer_store_amount'', PList ?stores)])"
    by (simp add: sample_offer_def)
  have b: "py_getitem (PDict [(''offer_store_amount'', PList ?stores)]) ''offer_store_amount'' = Inr (PList ?stores)"
    by simp
  have c: "\<forall>s\<in>set ?stores. \<exists>a. py_getitem s ''address'' = Inr (PStr a)"
    by simp
  have l1: "ascii_lower ''Moscow, Lenina st 5'' = ''moscow, lenina st 5''"
    by (simp add: ascii_lower_def)
  have l2: "ascii_lower ''lenina st 5'' = ''lenina st 5''"
    by (simp add: ascii_lower_def)
  have l3: "sublist ''lenina st 5'' ''moscow, lenina st 5''"
    by (simp add: sublist_Cons_right)
  show ?thesis
    using is_target_store_iff [OF a b c, of "sample_env all_timeout []" sample_configs] l1 l2 l3
    by (simp add: sample_env_def sample_configs_def)
qed

section \<open>Pagination\<close>

lemma pages_nonpos: "0 < limit \<Longrightarrow> n \<le> 0 \<Longrightarrow> pages n limit = 0"
  unfolding pages_def
proof -
  assume a: "0 < limit" "n \<le> 0"
  have "(n + limit - 1) div limit \<le> (limit - 1) div limit"
    using a by (intro zdiv_mono1) auto
  also have "\<dots> = 0" using a by (simp add: div_pos_pos_trivial)
  finally show "nat ((n + limit - 1) div limit) = 0" by simp
qed

lemma pages_pos: "0 < limit \<Longrightarrow> 0 < n \<Longrightarrow> pages n limit = Suc (pages (n - limit) limit)"
proof -
  assume a: "0 < limit" "0 < n"
  have "(n + limit - 1) div limit = (n - limit + limit - 1) div limit + 1"
    using a by (metis add.commute diff_add_cancel div_add_self1 less_irrefl add_diff_eq diff_add_eq)
  moreover have "0 \<le> (n - limit + limit - 1) div limit"
    using a by (simp add: pos_imp_zdiv_nonneg_iff)
  ultimately show ?thesis unfolding pages_def by simp
qed

lemma product_list_urls_loop_eq:
  assumes "0 < limit"
  shows "product_list_urls_loop url_part limit n offset urls =
     Some (urls @ map (\<lambda>i. page_url url_part (offset + 100 * int i)) [0..<pages n limit],
           n - int (pages n limit) * limit)"
proof (induction "pages n limit" arbitrary: n offset urls)
  case 0
  then have "n \<le> 0" using pages_pos [OF assms, of n] by (cases "0 < n") auto
  with 0 show ?case by (subst product_list_urls_loop.simps) simp
next
  case (Suc k)
  then have pos: "0 < n" using pages_nonpos [OF assms, of n] by (cases "0 < n") auto
  from Suc(2) pages_pos [OF assms pos] have k: "k = pages (n - limit) limit" by simp
  have step: "product_list_urls_loop url_part limit n offset urls =
     product_list_urls_loop url_part limit (n - limit) (offset + 100) (urls @ [page_url url_part offset])"
    using pos by (subst product_list_urls_loop.simps) (simp add: page_url_def)
  have m: "map (\<lambda>i. page_url url_part (offset + 100 * int i)) [0..<Suc k] =
     page_url url_part offset # map (\<lambda>i. page_url url_part (offset + 100 + 100 * int i)) [0..<k]"
    by (simp add: upt_conv_Cons map_Suc_upt [symmetric] del: upt_Suc) (simp add: algebra_simps)
  show ?case
    unfolding step Suc.hyps(1) [OF k] Suc(2) [symmetric] m
    by (simp add: k [symmetric] algebra_simps)
qed

lemma product_list_urls_loop_returned:
  assumes "product_list_urls_loop url_part limit n offset urls = Some r"
  shows "snd r \<le> 0 \<and> length urls \<le> length (fst r) \<and> (0 < n \<longrightarrow> length urls < length (fst r))"
proof -
  let ?P = "\<lambda>(u :: string) (l :: int) (m :: int) (k :: int) (us :: string list)
              (y :: string list \<times> int).
              snd y \<le> 0 \<and> length us \<le> length (fst y) \<and> (0 < m \<longrightarrow> length us < length (fst y))"
  have "?P url_part limit n offset urls r"
  proof (rule product_list_urls_loop.raw_induct [where P = ?P, OF _ assms])
    fix f :: "string \<Rightarrow> int \<Rightarrow> int \<Rightarrow> int \<Rightarrow> string list \<Rightarrow> (string list \<times> int) option"
    fix u l m k us y
    assume IH: "\<And>u l m k us y. f u l m k us = Some y \<Longrightarrow> ?P u l m k us y"
      and body: "(if 0 < m
           then f u l (m - l) (k + 100)
                  (us @ [u @ ''offset='' @ str_int k @ ''&sort_type=popular&id[]''])
           else Some (us, m)) = Some y"
    show "?P u l m k us y"
    proof (cases "0 < m")
      case True
      with body have "f u l (m - l) (k + 100)
          (us @ [u @ ''offset='' @ str_int k @ ''&sort_type=popular&id[]'']) = Some y"
        by simp
      from IH [OF this] True show ?thesis by simp
    next
      case False
      with body show ?thesis by auto
    qed
  qed
  then show ?thesis by simp
qed

lemma prepare_product_list_urls_eq:
  assumes "0 < product_list_limit self"
  shows "prepare_product_list_urls self =
     Some (map (\<lambda>i. page_url (''https://www.bethowen.ru/api/local/v1/catalog/list?limit=''
                       @ str_int (product_list_limit self) @ ''&'') (100 * int i))
             [0..<pages (number_products self) (product_list_limit self)],
           self\<lparr>number_products := number_products self
              - int (pages (number_products self) (product_list_limit self)) * product_list_limit self\<rparr>)"
  by (simp add: prepare_product_list_urls_def product_list_urls_loop_eq [OF assms])

text \<open>
  C10: with a positive limit \<open>_prepare_product_list_urls\<close> returns, and whenever it
  returns it leaves a count that is zero or negative, so that a second call returns no
  URL and changes nothing; after a positive count the first call returned at least one
  URL, so the two calls differ.
\<close>

theorem prepare_product_list_urls_consumes_count:
  "(0 < product_list_limit self \<longrightarrow> (\<exists>r. prepare_product_list_urls self = Some r))
   \<and> (\<forall>urls self'. prepare_product_list_urls self = Some (urls, self') \<longrightarrow>
         number_products self' \<le> 0
         \<and> prepare_product_list_urls self' = Some ([], self')
         \<and> (0 < number_products self \<longrightarrow> urls \<noteq> []))"
proof -
  have total: "0 < product_list_limit self \<longrightarrow> (\<exists>r. prepare_product_list_urls self = Some r)"
    by (simp add: prepare_product_list_urls_eq)
  have after: "number_products self' \<le> 0
         \<and> prepare_product_list_urls self' = Some ([], self')
         \<and> (0 < number_products self \<longrightarrow> urls \<noteq> [])"
    if a: "prepare_product_list_urls self = Some (urls, self')" for urls self'
  proof -
    from a obtain n' where l: "product_list_urls_loop
        (''https://www.bethowen.ru/api/local/v1/catalog/list?limit=''
           @ str_int (product_list_limit self) @ ''&'')
        (product_list_limit self) (number_products self) 0 [] = Some (urls, n')"
      and s: "self' = self\<lparr>number_products := n'\<rparr>"
      by (auto simp: prepare_product_list_urls_def split: option.splits)
    from product_list_urls_loop_returned [OF l]
    have n': "n' \<le> 0" and ne: "0 < number_products self \<longrightarrow> urls \<noteq> []" by auto
    have "product_list_urls_loop
        (''https://www.bethowen.ru/api/local/v1/catalog/list?limit=''
           @ str_int (product_list_limit self') @ ''&'')
        (product_list_limit self') (number_products self') 0 [] = Some ([], n')"
      using n' s by (subst product_list_urls_loop.simps) simp
    then have "prepare_product_list_urls self' = Some ([], self')"
      using s by (simp add: prepare_product_list_urls_def)
    with n' ne s show ?thesis by simp
  qed
  from total after show ?thesis by blast
qed

lemma pages_250: "pages 250 100 = 3" by (simp add: pages_def)

lemma pages_100_50: "pages 100 50 = 2" by (simp add: pages_def)

lemma upt3: "[0..<3] = [0, 1, 2]" by (simp add: upt_conv_Cons)

lemma str_int_0: "str_int 0 = ''0''" by (simp add: str_int_def str_nat.simps)

lemma str_int_50: "str_int 50 = ''50''" by (simp add: str_int_def str_nat.simps)

lemma str_int_100: "str_int 100 = ''100''" by (simp add: str_int_def str_nat.simps)

lemma str_int_200: "str_int 200 = ''200''" by (simp add: str_int_def str_nat.simps)

theorem prepare_product_list_urls_consumes_count_witness:
  "0 < product_list_limit (sample_parser 100 250 [])
   \<and> (\<exists>urls self'. prepare_product_list_urls (sample_parser 100 250 []) = Some (urls, self')
         \<and> number_products self' \<le> 0
         \<and> prepare_product_list_urls self' = Some ([], self')
         \<and> urls \<noteq> [])"
proof -
  have a: "0 < product_list_limit (sample_parser 100 250 [])" by (simp add: sample_parser_def)
  have b: "0 < number_products (sample_parser 100 250 [])" by (simp add: sample_parser_def)
  from prepare_product_list_urls_consumes_count [of "sample_parser 100 250 []"] a b
  show ?thesis by (cases "prepare_product_list_urls (sample_parser 100 250 [])") auto
qed

text \<open>
  C4: the offset is meant to advance by the page size that the URL carries as its limit.
  With a limit of 50 and 100 products the two URLs carry the offsets 0 and 100, not 0
  and 50: line 102 adds the literal 100 where line 101 subtracts the limit.
\<close>

theorem prepare_product_list_urls_offset_literal:
  "map_option fst (prepare_product_list_urls (sample_parser 50 100 [])) =
     Some [''https://www.bethowen.ru/api/local/v1/catalog/list?limit=50&offset=0&sort_type=popular&id[]'',
           ''https://www.bethowen.ru/api/local/v1/catalog/list?limit=50&offset=100&sort_type=popular&id[]'']"
proof -
  have a: "0 < product_list_limit (sample_parser 50 100 [])" by (simp add: sample_parser_def)
  have u: "[0..<2] = [0, 1]" by (simp add: upt_conv_Cons)
  show ?thesis
    unfolding prepare_product_list_urls_eq [OF a]
    by (simp add: sample_parser_def pages_100_50 u page_url_def str_int_0 str_int_50 str_int_100)
qed

text \<open>
  With the limit of 100 that the class sets, a count of 250 gives the three pages at the
  offsets 0, 100 and 200; the number of pages is the rounded-up quotient for any
  positive limit.
\<close>

lemma prepare_product_list_urls_250:
  "map_option fst (prepare_product_list_urls (sample_parser 100 250 [])) =
     Some [''https://www.bethowen.ru/api/local/v1/catalog/list?limit=100&offset=0&sort_type=popular&id[]'',
           ''https://www.bethowen.ru/api/local/v1/catalog/list?limit=100&offset=100&sort_type=popular&id[]'',
           ''https://www.bethowen.ru/api/local/v1/catalog/list?limit=100&offset=200&sort_type=popular&id[]'']"
proof -
  have a: "0 < product_list_limit (sample_parser 100 250 [])" by (simp add: sample_parser_def)
  show ?thesis
    unfolding prepare_product_list_urls_eq [OF a]
    by (simp add: sample_parser_def pages_250 upt3 page_url_def str_int_0 str_int_100 str_int_200)
qed

lemma pages_bounds:
  assumes "0 < limit" "0 < n"
  shows "(int (pages n limit) - 1) * limit < n \<and> n \<le> int (pages n limit) * limit"
proof -
  define q where "q = (n + limit - 1) div limit"
  define r where "r = (n + limit - 1) mod limit"
  have q0: "0 \<le> q" using assms by (simp add: q_def pos_imp_zdiv_nonneg_iff)
  then have p: "int (pages n limit) = q" by (simp add: pages_def q_def)
  have e: "n + limit - 1 = q * limit + r" by (simp add: q_def r_def)
  have m: "0 \<le> r" "r < limit" using assms by (simp_all add: r_def)
  have "(q - 1) * limit = q * limit - limit" by (simp add: algebra_simps)
  with e m show ?thesis unfolding p by linarith
qed

section \<open>Proxy pool and fetching\<close>

lemma split_acc_length: "length (split_acc sep acc s) = Suc (count_list s sep)"
  by (induction s arbitrary: acc) auto

lemma split_nonempty: "split s sep \<noteq> []"
  using split_acc_length [of sep "[]" s] by (auto simp: split_def)

lemma prepare_proxy_list_nonempty:
  "prepare_proxy_list (Some text) = Inr ps \<Longrightarrow> ps \<noteq> []"
  using split_nonempty [of "text" "CHR 0x0A"] by (auto simp: prepare_proxy_list_def Let_def)

text \<open>
  C9: an empty proxy list raises nothing. Whatever the text of \<open>proxies.txt\<close>, the
  empty text included, \<open>_prepare_proxy_list\<close> builds a pool with one entry for every
  newline-separated piece of it, one more than there are newlines, so the pool is never
  empty and \<open>Proxy.get\<close> never fails on it for want of an entry.
\<close>

theorem proxy_pool_never_empty:
  "\<exists>ps. prepare_proxy_list (Some text) = Inr ps
        \<and> length ps = Suc (count_list text (CHR 0x0A))
        \<and> (\<forall>c r. proxies c = ps \<longrightarrow> proxy_get E c \<noteq> Inl IndexError)"
proof -
  have "length (split text (CHR 0x0A)) = Suc (count_list text (CHR 0x0A))"
    by (simp add: split_def split_acc_length)
  then show ?thesis
    by (auto simp: prepare_proxy_list_def Let_def proxy_get_def random_choice_def)
qed

theorem proxy_pool_never_empty_witness:
  "\<exists>ps. prepare_proxy_list (Some []) = Inr ps \<and> length ps = 1
        \<and> proxy_get (sample_env all_timeout []) \<lparr>proxies = ps, cookie = None, requests = 0\<rparr>
            \<noteq> Inl IndexError"
proof -
  from proxy_pool_never_empty [of "[]" "sample_env all_timeout []"]
  obtain ps where ps: "prepare_proxy_list (Some []) = Inr ps" "length ps = Suc (count_list [] (CHR 0x0A))"
    "\<forall>c r. proxies c = ps \<longrightarrow> proxy_get (sample_env all_timeout []) c \<noteq> Inl IndexError"
    by blast
  from ps(3) have "proxy_get (sample_env all_timeout []) \<lparr>proxies = ps, cookie = None, requests = 0\<rparr>
            \<noteq> Inl IndexError" by simp
  with ps(1,2) show ?thesis by simp
qed

text \<open>
  The empty file does not raise: it gives the pool of one entry whose proxy is the empty
  string.
\<close>

theorem prepare_proxy_list_empty_file:
  "prepare_proxy_list (Some []) = Inr [\<lparr>http = [], https = []\<rparr>]"
  by (simp add: prepare_proxy_list_def split_def)

lemma get_url_exhausted:
  assumes "proxies c \<noteq> []"
    and "\<forall>k p. transient (session_get E k url p)"
    and "retry \<le> max_retry"
  shows "get_url E url retry c = (Inr PNone, c\<lparr>requests := requests c + nat (max_retry - retry)\<rparr>)"
  using assms
proof (induction E url retry c rule: get_url.induct)
  case (1 E url retry c)
  show ?case
  proof (cases "retry \<ge> max_retry")
    case True
    with "1.prems"(3) have "retry = max_retry" by simp
    then show ?thesis by (subst get_url.simps) simp
  next
    case False
    from "1.prems"(1) obtain p where p: "proxy_get E c = Inr p"
      by (auto simp: proxy_get_def random_choice_def)
    let ?c' = "c\<lparr>requests := Suc (requests c)\<rparr>"
    have c': "proxies ?c' \<noteq> []" using "1.prems"(1) by simp
    have le: "retry + 1 \<le> max_retry" using False by simp
    have tr: "transient (session_get E (requests c) url p)" using "1.prems"(2) by blast
    have n: "Suc (requests c) + nat (max_retry - (retry + 1)) = requests c + nat (max_retry - retry)"
      using False by simp
    show ?thesis
    proof (cases "session_get E (requests c) url p")
      case Timeout
      from "1.IH"(1) [OF False p refl Timeout c' "1.prems"(2) le] Timeout p False n show ?thesis
        by (subst get_url.simps) simp
    next
      case ProxyError
      from "1.IH"(2) [OF False p refl ProxyError c' "1.prems"(2) le] ProxyError p False n show ?thesis
        by (subst get_url.simps) simp
    next
      case OtherFailure
      with tr show ?thesis by simp
    next
      case (Response status body)
      show ?thesis
      proof (cases "status \<noteq> 200")
        case True
        from "1.IH"(3) [OF False p refl Response True c' "1.prems"(2) le] Response True p False n show ?thesis
          by (subst get_url.simps) simp
      next
        case s: False
        with tr Response have b: "body = None" by simp
        from "1.IH"(4) [OF False p refl Response s b c' "1.prems"(2) le] Response s b p False n show ?thesis
          by (subst get_url.simps) simp
      qed
    qed
  qed
qed

text \<open>
  C1: when every request for a URL fails in a way that \<open>get_url\<close> retries (timeout,
  proxy error, status other than 200, body that is not JSON), \<open>get_url\<close> called with
  \<open>retry = 0\<close> sends exactly three requests, the \<open>max_retry\<close> of line 64, then
  returns \<open>None\<close> and raises nothing.
\<close>

theorem get_url_gives_up_after_three:
  assumes "proxies c \<noteq> []"
    and "\<forall>k p. transient (session_get E k url p)"
  shows "get_url E url 0 c = (Inr PNone, c\<lparr>requests := requests c + 3\<rparr>)"
  using get_url_exhausted [OF assms, of 0] by (simp add: max_retry_def)

theorem get_url_gives_up_after_three_witness:
  "proxies sample_crawler \<noteq> []
   \<and> (\<forall>k p. transient (session_get (sample_env all_timeout []) k ''https://www.bethowen.ru/x'' p))
   \<and> get_url (sample_env all_timeout []) ''https://www.bethowen.ru/x'' 0 sample_crawler
       = (Inr PNone, sample_crawler\<lparr>requests := 3\<rparr>)"
proof -
  have a: "proxies sample_crawler \<noteq> []" by (simp add: sample_crawler_def)
  have b: "\<forall>k p. transient (session_get (sample_env all_timeout []) k ''https://www.bethowen.ru/x'' p)"
    by (simp add: sample_env_def all_timeout_def)
  show ?thesis
    using a b get_url_gives_up_after_three [OF a b] by (simp add: sample_crawler_def)
qed

text \<open>
  On a network where every request times out the number of requests sent is not four.
\<close>

theorem get_url_four_attempts_counterexample:
  "requests (snd (get_url (sample_env all_timeout []) ''https://www.bethowen.ru/x'' 0 sample_crawler))
     \<noteq> requests sample_crawler + 4"
  by (simp add: get_url.simps sample_env_def all_timeout_def sample_crawler_def
      proxy_get_def random_choice_def max_retry_def)

section \<open>Offer details\<close>

lemma str_int_11: "str_int 11 = ''11''" by (simp add: str_int_def str_nat.simps)

lemma str_int_12: "str_int 12 = ''12''" by (simp add: str_int_def str_nat.simps)

lemma prepare_offer_list_urls_one:
  "prepare_offer_list_urls (sample_env net order) (PList [PDict [(''id'', PInt 12), (''categories_chain'', PDict [])]])
     = Inr {offer_url_12}"
  by (simp add: prepare_offer_list_urls_def sample_env_def str_int_12 offer_url_12_def)

lemma prepare_offer_list_urls_two:
  "prepare_offer_list_urls (sample_env net order) (PList
         [PDict [(''id'', PInt 11), (''categories_chain'', PDict [(''1'', PStr ''Cats'')])],
          PDict [(''id'', PInt 12), (''categories_chain'',
             PDict [(''1'', PStr ''Dogs''), (''2'', PStr ''Bowls''), (''3'', PStr ''Stand Bowls'')])]])
     = Inr {offer_url_12, offer_url_11}"
  by (simp add: prepare_offer_list_urls_def sample_env_def str_int_11 str_int_12 offer_url_11_def offer_url_12_def)

lemma get_url_all_timeout:
  "get_url (sample_env all_timeout order) url 0 sample_crawler = (Inr PNone, sample_crawler\<lparr>requests := 3\<rparr>)"
  by (simp add: get_url.simps sample_env_def all_timeout_def sample_crawler_def
      proxy_get_def random_choice_def max_retry_def)

lemma get_url_always:
  "get_url (sample_env (always v) order) url 0 sample_crawler = (Inr v, sample_crawler\<lparr>requests := 1\<rparr>)"
  by (simp add: get_url.simps sample_env_def always_def sample_crawler_def
      proxy_get_def random_choice_def max_retry_def)

lemma get_url_absent_then_first:
  "get_url (sample_env (absent_then v) order) url 0 sample_crawler = (Inr PNone, sample_crawler\<lparr>requests := 3\<rparr>)"
  by (simp add: get_url.simps sample_env_def absent_then_def sample_crawler_def
      proxy_get_def random_choice_def max_retry_def)

lemma get_url_absent_then_second:
  "get_url (sample_env (absent_then v) order) url 0 (sample_crawler\<lparr>requests := 3\<rparr>)
     = (Inr v, sample_crawler\<lparr>requests := 4\<rparr>)"
  by (simp add: get_url.simps sample_env_def absent_then_def sample_crawler_def
      proxy_get_def random_choice_def max_retry_def)

lemma is_target_store_None: "is_target_store E cfg PNone = Inl TypeError"
  by (simp add: is_target_store_def)

lemma is_target_store_sample:
  "is_target_store (sample_env net order) sample_configs sample_offer = Inr True"
proof -
  have l1: "ascii_lower ''Moscow, Lenina st 5'' = ''moscow, lenina st 5''"
    by (simp add: ascii_lower_def)
  have l2: "ascii_lower ''lenina st 5'' = ''lenina st 5''"
    by (simp add: ascii_lower_def)
  have l0: "ascii_lower ''Kazan, Mira 1'' = ''kazan, mira 1''"
    by (simp add: ascii_lower_def)
  have l3: "sublist ''lenina st 5'' ''moscow, lenina st 5''"
    by (simp add: sublist_Cons_right)
  have l4: "\<not> sublist ''lenina st 5'' ''kazan, mira 1''"
    by (simp add: sublist_Cons_right)
  show ?thesis
    by (simp add: is_target_store_def sample_offer_def sample_env_def sample_configs_def l0 l1 l2 l3 l4)
qed

text \<open>Whatever the product, a response \<open>None\<close> ends the loop with a \<open>TypeError\<close>.\<close>

lemma get_offer_details_loop_None:
  "get_offer_details_loop E cfg product_data (PNone # rest) self = (Inl TypeError, self)"
  by (simp add: is_target_store_None)

text \<open>
  C2: a fetch that gave up is meant to be left out of the responses that are matched.
  It is not: for a product with one offer whose three requests time out,
  \<open>_get_offer_details\<close> hands \<open>None\<close> to \<open>_is_target_store\<close>, which subscripts it,
  and the call ends with a \<open>TypeError\<close>.
\<close>

theorem get_offer_details_absent_raises:
  "get_offer_details (sample_env all_timeout [offer_url_12]) sample_configs sample_product_one
     (sample_parser 100 1 [])
   = (Inl TypeError, (sample_parser 100 1 [])\<lparr>crawler := sample_crawler\<lparr>requests := 3\<rparr>\<rparr>)"
proof -
  have o: "py_get sample_product_one ''offers'' (PList [])
      = Inr (PList [PDict [(''id'', PInt 12), (''categories_chain'', PDict [])]])"
    by (simp add: sample_product_one_def)
  have s: "set_order (sample_env all_timeout [offer_url_12]) {offer_url_12} = [offer_url_12]"
    by (simp add: sample_env_def)
  have c: "crawler (sample_parser 100 1 []) = sample_crawler" by (simp add: sample_parser_def)
  show ?thesis
    by (simp add: get_offer_details_def o prepare_offer_list_urls_one s c get_url_all_timeout
        is_target_store_None)
qed

text \<open>
  \<open>_get_product_list\<close> tests the response before it uses it, and skips a fetch that
  gave up.
\<close>

lemma get_product_list_absent_skipped:
  "get_product_list (sample_env all_timeout []) url (sample_parser 100 1 [])
   = (Inr (), (sample_parser 100 1 [])\<lparr>crawler := sample_crawler\<lparr>requests := 3\<rparr>\<rparr>)"
proof -
  have c: "crawler (sample_parser 100 1 []) = sample_crawler" by (simp add: sample_parser_def)
  show ?thesis by (simp add: get_product_list_def c get_url_all_timeout)
qed

text \<open>
  When the fetch of offer 11 gave up and the one of offer 12 succeeded, and the set of
  URLs is iterated in the order 11, 12, the exception raised for offer 11 ends the call
  before offer 12, which matches the store, is looked at: no row is appended.
\<close>

lemma get_offer_details_absent_hides_match:
  "get_offer_details (sample_env (absent_then sample_offer) [offer_url_11, offer_url_12])
     sample_configs sample_product (sample_parser 100 1 [])
   = (Inl TypeError, (sample_parser 100 1 [])\<lparr>crawler := sample_crawler\<lparr>requests := 4\<rparr>\<rparr>)"
proof -
  have o: "py_get sample_product ''offers'' (PList [])
      = Inr (PList
         [PDict [(''id'', PInt 11), (''categories_chain'', PDict [(''1'', PStr ''Cats'')])],
          PDict [(''id'', PInt 12), (''categories_chain'',
             PDict [(''1'', PStr ''Dogs''), (''2'', PStr ''Bowls''), (''3'', PStr ''Stand Bowls'')])]])"
    by (simp add: sample_product_def)
  have s: "set_order (sample_env (absent_then sample_offer) [offer_url_11, offer_url_12]) {offer_url_12, offer_url_11}
       = [offer_url_11, offer_url_12]"
    by (simp add: sample_env_def)
  have c: "crawler (sample_parser 100 1 []) = sample_crawler" by (simp add: sample_parser_def)
  show ?thesis
    by (simp add: get_offer_details_def o prepare_offer_list_urls_two s c
        get_url_absent_then_first get_url_absent_then_second is_target_store_None)
qed

text \<open>When the only offer is fetched and matches, its row is appended.\<close>

lemma get_offer_details_fetched_row:
  "get_offer_details (sample_env (always sample_offer) [offer_url_12]) sample_configs
     sample_product_one (sample_parser 100 1 [])
   = (Inr (), (sample_parser 100 1 [])
        \<lparr>crawler := sample_crawler\<lparr>requests := 1\<rparr>,
         result := [PDict [(''city'', PStr ''Springfield''), (''city_id'', PStr ''77''),
                      (''store_address'', PStr ''lenina st 5''), (''product_id'', PInt 1001),
                      (''product_name'', PStr ''Bowl''), (''product_size'', PStr ''0.5 l''),
                      (''retail_price'', PInt 499), (''discount_price'', PInt 449)]]\<rparr>)"
proof -
  have o: "py_get sample_product_one ''offers'' (PList [])
      = Inr (PList [PDict [(''id'', PInt 12), (''categories_chain'', PDict [])]])"
    by (simp add: sample_product_one_def)
  have s: "set_order (sample_env (always sample_offer) [offer_url_12]) {offer_url_12} = [offer_url_12]"
    by (simp add: sample_env_def)
  have c: "crawler (sample_parser 100 1 []) = sample_crawler" by (simp add: sample_parser_def)
  have i: "py_getitem sample_offer ''id'' = Inr (PInt 12)"
     "py_getitem sample_offer ''size'' = Inr (PStr ''0.5 l'')"
     "py_getitem sample_offer ''retail_price'' = Inr (PInt 499)"
     "py_getitem sample_offer ''discount_price'' = Inr (PInt 449)"
    by (simp_all add: sample_offer_def)
  have p: "py_getitem sample_product_one ''id'' = Inr (PInt 1001)"
     "py_getitem sample_product_one ''name'' = Inr (PStr ''Bowl'')"
    by (simp_all add: sample_product_one_def)
  have t: "is_target_category ((sample_parser 100 1 [])\<lparr>crawler := sample_crawler\<lparr>requests := 1\<rparr>\<rparr>)
             (PInt 12) sample_product_one = Inr True"
    by (simp add: is_target_category_def sample_parser_def)
  show ?thesis
    by (simp add: get_offer_details_def o prepare_offer_list_urls_one s c get_url_always
        is_target_store_sample i p t)
       (simp add: sample_parser_def sample_configs_def is_target_category_def i p)
qed

end
